theory Spec2Isabelle
  imports Main "HOL-Library.AList"
begin

section \<open>The constraint model shared by the CSP scripts (files 18 to 21)\<close>

text \<open>
  Variables and values are Python strings. A Python \<open>dict\<close> is an association list in
  insertion order: \<open>d[k]\<close> is \<open>map_of d k\<close> (a missing key raises \<open>KeyError\<close>),
  \<open>d[k] = v\<close> is \<open>AList.update k v d\<close> (an existing key keeps its place, a new
  key goes last), \<open>del d[k]\<close> is \<open>AList.delete k d\<close>, \<open>len(d)\<close> is
  \<open>length d\<close> and \<open>k in d\<close> is \<open>k \<in> set (map fst d)\<close>.

  Every script declares the adjacency table \<open>adyacentes\<close> at module level and its
  functions read it as a global. The model passes the table explicitly as the first
  argument \<open>adj\<close>, so that properties can be stated for any table; \<open>adyacentes\<close> below
  is the table of the scripts.
\<close>

type_synonym var = string
type_synonym val = string
type_synonym 'a dict = "(var \<times> 'a) list"

datatype error = KeyError | IndexError | RecursionError | ValueError

definition variables :: "var list" where
  "variables = [''WA'', ''NT'', ''SA'', ''Q'', ''NSW'', ''V'', ''T'']"

definition dominio_base :: "val list dict" where
  "dominio_base = map (\<lambda>v. (v, [''ROJO'', ''VERDE'', ''AZUL''])) variables"

definition adyacentes :: "var list dict" where
  "adyacentes =
    [(''WA'',  [''NT'', ''SA'']),
     (''NT'',  [''WA'', ''SA'', ''Q'']),
     (''SA'',  [''WA'', ''NT'', ''Q'', ''NSW'', ''V'']),
     (''Q'',   [''NT'', ''SA'', ''NSW'']),
     (''NSW'', [''SA'', ''Q'', ''V'']),
     (''V'',   [''SA'', ''NSW'', ''T'']),
     (''T'',   [''V''])]"

text \<open>\<open>adyacentes.get(var_a, [])\<close>\<close>

definition vecinos_de :: "var list dict \<Rightarrow> var \<Rightarrow> var list" where
  "vecinos_de adj var_a = (case map_of adj var_a of None \<Rightarrow> [] | Some vs \<Rightarrow> vs)"

definition no_conflicto_binario :: "var list dict \<Rightarrow> var \<Rightarrow> val \<Rightarrow> var \<Rightarrow> val \<Rightarrow> bool" where
  "no_conflicto_binario adj var_a val_a var_b val_b =
     (if var_b \<notin> set (vecinos_de adj var_a) then True else val_a \<noteq> val_b)"

text \<open>
  \<open>es_consistente_con_asignacion\<close> (file 18; \<open>es_consistente_parcial\<close> in files 19 and
  20): the loop over \<open>items()\<close> returns \<open>False\<close> at the first violated pair.
\<close>

definition es_consistente_con_asignacion :: "var list dict \<Rightarrow> val dict \<Rightarrow> var \<Rightarrow> val \<Rightarrow> bool" where
  "es_consistente_con_asignacion adj actual_asignacion var valor =
     list_all (\<lambda>(otra_var, otro_valor). no_conflicto_binario adj var valor otra_var otro_valor)
       actual_asignacion"

section \<open>File 18: backtracking\<close>

text \<open>
  \<open>backtracking\<close> mutates the caller's dictionary \<open>asignacion_parcial\<close> in place and
  returns either that same dictionary (success) or \<open>None\<close>. The model returns the state
  of the dictionary in both cases: \<open>Exito a\<close> is the return of the dictionary, holding
  \<open>a\<close>; \<open>Fallo a\<close> is the return of \<open>None\<close>, the dictionary holding \<open>a\<close>.
  The first argument after the problem is the number of stack frames left: Python raises
  \<open>RecursionError\<close> when the recursion is deeper than its limit.
\<close>

datatype resultado = Exito "val dict" | Fallo "val dict"

text \<open>The \<open>for valor in dominios[var_actual]\<close> loop; \<open>rec\<close> is the recursive call.\<close>

fun probar_valores ::
  "var list dict \<Rightarrow> (val dict \<Rightarrow> error + resultado) \<Rightarrow> var \<Rightarrow> val list \<Rightarrow> val dict
     \<Rightarrow> error + resultado" where
  "probar_valores adj rec var_actual [] asignacion_parcial = Inr (Fallo asignacion_parcial)"
| "probar_valores adj rec var_actual (valor # resto) asignacion_parcial =
     (if es_consistente_con_asignacion adj asignacion_parcial var_actual valor
      then (case rec (AList.update var_actual valor asignacion_parcial) of
              Inl e \<Rightarrow> Inl e
            | Inr (Exito a) \<Rightarrow> Inr (Exito a)
            | Inr (Fallo a) \<Rightarrow>
                (if var_actual \<in> set (map fst a)
                 then probar_valores adj rec var_actual resto (AList.delete var_actual a)
                 else Inl KeyError))
      else probar_valores adj rec var_actual resto asignacion_parcial)"

primrec backtracking ::
  "var list dict \<Rightarrow> var list \<Rightarrow> val list dict \<Rightarrow> nat \<Rightarrow> val dict \<Rightarrow> error + resultado" where
  "backtracking adj variables_orden dominios 0 asignacion_parcial = Inl RecursionError"
| "backtracking adj variables_orden dominios (Suc marcos) asignacion_parcial =
     (if length asignacion_parcial = length variables_orden
      then Inr (Exito asignacion_parcial)
      else if length variables_orden < length asignacion_parcial
      then Inl IndexError
      else (case map_of dominios (variables_orden ! length asignacion_parcial) of
              None \<Rightarrow> Inl KeyError
            | Some dominio \<Rightarrow>
                probar_valores adj (backtracking adj variables_orden dominios marcos)
                  (variables_orden ! length asignacion_parcial) dominio asignacion_parcial))"


section \<open>File 21: conflict-directed backjumping\<close>

text \<open>\<open>es_consistente_con_parcial\<close>: the pair of the flag and the set of variables in direct conflict.\<close>

definition es_consistente_con_parcial :: "var list dict \<Rightarrow> val dict \<Rightarrow> var \<Rightarrow> val \<Rightarrow> bool \<times> var set" where
  "es_consistente_con_parcial adj asignacion var valor =
     (let conflictos =
            set (map fst (filter (\<lambda>(otra_var, otro_val).
                   \<not> no_conflicto_binario adj var valor otra_var otro_val) asignacion))
      in (conflictos = {}, conflictos))"

text \<open>
  The local state of \<open>backjumping\<close>. The dictionaries \<open>conflict_set\<close> and
  \<open>intento_valor_idx\<close> are created with every variable of \<open>orden_vars\<close> as a key and are
  only ever read and written at \<open>orden_vars[i]\<close>, so no access can miss a key: they are
  total functions here. A Python \<open>set\<close> is a HOL set.
\<close>

record bj_estado =
  bj_asignacion_parcial :: "val dict"
  bj_conflict_set :: "var \<Rightarrow> var set"
  bj_intento_valor_idx :: "var \<Rightarrow> nat"
  bj_idx_actual :: int

text \<open>\<open>orden_vars.index(v)\<close>, called only under \<open>v in orden_vars\<close>.\<close>

fun indice :: "var list \<Rightarrow> var \<Rightarrow> nat" where
  "indice [] v = 0"
| "indice (x # xs) v = (if x = v then 0 else Suc (indice xs v))"

text \<open>
  The inner loop \<open>while intento_valor_idx[var_actual] < len(dominio_var)\<close> (lines 160 to
  189). The flag returned is \<open>asignado_exitoso\<close>.
\<close>

function probar_desde ::
  "var list dict \<Rightarrow> var list \<Rightarrow> var \<Rightarrow> val list \<Rightarrow> bj_estado \<Rightarrow> bool \<times> bj_estado" where
  "probar_desde adj orden_vars var_actual dominio_var s =
     (if bj_intento_valor_idx s var_actual < length dominio_var
      then (let valor = dominio_var ! bj_intento_valor_idx s var_actual;
                (consistente, conflictos_directos) =
                   es_consistente_con_parcial adj (bj_asignacion_parcial s) var_actual valor
            in if consistente
               then (True,
                     s\<lparr>bj_asignacion_parcial :=
                          AList.update var_actual valor (bj_asignacion_parcial s),
                       bj_intento_valor_idx :=
                          (if bj_idx_actual s + 1 < int (length orden_vars)
                           then (bj_intento_valor_idx s)
                                  (orden_vars ! nat (bj_idx_actual s + 1) := 0)
                           else bj_intento_valor_idx s)\<rparr>)
               else probar_desde adj orden_vars var_actual dominio_var
                      (s\<lparr>bj_conflict_set :=
                           (bj_conflict_set s)
                             (var_actual := bj_conflict_set s var_actual \<union> conflictos_directos),
                         bj_intento_valor_idx :=
                           (bj_intento_valor_idx s)
                             (var_actual := bj_intento_valor_idx s var_actual + 1)\<rparr>))
      else (False, s))"
  by pat_completeness auto
termination
  by (relation "measure (\<lambda>(adj, orden_vars, var_actual, dominio_var, s).
                  length dominio_var - bj_intento_valor_idx s var_actual)")
     (auto simp: es_consistente_con_parcial_def Let_def)

declare probar_desde.simps [simp del]

text \<open>
  Lines 206 to 221: the index to jump to. The list \<open>indices_conflictivos\<close> is only tested
  for emptiness and passed to \<open>max\<close>, so it is the set of its elements here. The trace of
  line 223 reads \<open>orden_vars[salto_idx]\<close>; the index is at least \<open>-1\<close> and the list
  is not empty there, so the read cannot raise.
\<close>

definition salto_idx_de :: "var list \<Rightarrow> bj_estado \<Rightarrow> int" where
  "salto_idx_de orden_vars s =
     (let var_actual = orden_vars ! nat (bj_idx_actual s) in
      if bj_conflict_set s var_actual = {}
      then bj_idx_actual s - 1
      else (let indices_conflictivos =
                  indice orden_vars ` (bj_conflict_set s var_actual \<inter> set orden_vars)
            in if indices_conflictivos = {}
               then bj_idx_actual s - 1
               else int (Max indices_conflictivos)))"

text \<open>Lines 229 and 230: the jump target inherits the conflict set.\<close>

definition heredar_conflictos :: "var list \<Rightarrow> int \<Rightarrow> bj_estado \<Rightarrow> bj_estado" where
  "heredar_conflictos orden_vars salto_idx s =
     (let var_actual = orden_vars ! nat (bj_idx_actual s) in
      if bj_conflict_set s var_actual \<noteq> {} \<and> 0 \<le> salto_idx
      then s\<lparr>bj_conflict_set :=
                (bj_conflict_set s)
                  (orden_vars ! nat salto_idx :=
                     bj_conflict_set s (orden_vars ! nat salto_idx)
                       \<union> bj_conflict_set s var_actual)\<rparr>
      else s)"

text \<open>Lines 234 to 247: the body of \<open>for i in range(idx_actual, len(orden_vars))\<close>, and the loop.\<close>

definition limpiar_uno :: "var list \<Rightarrow> int \<Rightarrow> bj_estado \<Rightarrow> nat \<Rightarrow> bj_estado" where
  "limpiar_uno orden_vars salto_idx s i =
     (let var_i = orden_vars ! i;
          s1 = s\<lparr>bj_asignacion_parcial := AList.delete var_i (bj_asignacion_parcial s)\<rparr>
      in if int i \<noteq> salto_idx
         then s1\<lparr>bj_conflict_set := (bj_conflict_set s1)(var_i := {}),
                  bj_intento_valor_idx := (bj_intento_valor_idx s1)(var_i := 0)\<rparr>
         else s1)"

definition limpiar :: "var list \<Rightarrow> int \<Rightarrow> bj_estado \<Rightarrow> bj_estado" where
  "limpiar orden_vars salto_idx s =
     foldl (limpiar_uno orden_vars salto_idx) s [nat (bj_idx_actual s) ..< length orden_vars]"

text \<open>Lines 253 to 260: advance the trial index of the jump target and land on it.\<close>

definition aterrizar :: "var list \<Rightarrow> int \<Rightarrow> bj_estado \<Rightarrow> bj_estado" where
  "aterrizar orden_vars salto_idx s =
     (if 0 \<le> salto_idx
      then s\<lparr>bj_intento_valor_idx :=
                (bj_intento_valor_idx s)
                  (orden_vars ! nat salto_idx :=
                     bj_intento_valor_idx s (orden_vars ! nat salto_idx) + 1),
              bj_idx_actual := salto_idx\<rparr>
      else s\<lparr>bj_idx_actual := salto_idx\<rparr>)"

text \<open>Lines 198 to 260: what one failed variable does to the state.\<close>

definition saltar :: "var list \<Rightarrow> bj_estado \<Rightarrow> bj_estado" where
  "saltar orden_vars s =
     (let salto_idx = salto_idx_de orden_vars s
      in aterrizar orden_vars salto_idx
           (limpiar orden_vars salto_idx (heredar_conflictos orden_vars salto_idx s)))"

text \<open>
  One turn of \<open>while True\<close>: it either returns (\<open>None\<close> or the assignment dictionary, or an
  exception) or goes on with a new state.
\<close>

datatype paso = Termina "error + val dict option" | Sigue bj_estado

definition bj_paso :: "var list dict \<Rightarrow> var list \<Rightarrow> val list dict \<Rightarrow> bj_estado \<Rightarrow> paso" where
  "bj_paso adj orden_vars dominios s =
     (if bj_idx_actual s < 0 then Termina (Inr None)
      else if bj_idx_actual s = int (length orden_vars)
      then Termina (Inr (Some (bj_asignacion_parcial s)))
      else if int (length orden_vars) < bj_idx_actual s then Termina (Inl IndexError)
      else (case map_of dominios (orden_vars ! nat (bj_idx_actual s)) of
              None \<Rightarrow> Termina (Inl KeyError)
            | Some dominio_var \<Rightarrow>
                (case probar_desde adj orden_vars (orden_vars ! nat (bj_idx_actual s))
                        dominio_var s of
                   (True, s') \<Rightarrow> Sigue (s'\<lparr>bj_idx_actual := bj_idx_actual s' + 1\<rparr>)
                 | (False, s') \<Rightarrow> Sigue (saltar orden_vars s'))))"

text \<open>
  The \<open>while True\<close> loop has no bound on its turns: the result \<open>None\<close> of the model is a
  loop that never returns, \<open>Some r\<close> is the return of \<open>r\<close>.
\<close>

partial_function (option) bj_bucle ::
  "var list dict \<Rightarrow> var list \<Rightarrow> val list dict \<Rightarrow> bj_estado \<Rightarrow> (error + val dict option) option" where
  "bj_bucle adj orden_vars dominios s =
     (case bj_paso adj orden_vars dominios s of
        Termina r \<Rightarrow> Some r
      | Sigue s' \<Rightarrow> bj_bucle adj orden_vars dominios s')"

definition bj_inicial :: bj_estado where
  "bj_inicial =
     \<lparr>bj_asignacion_parcial = [], bj_conflict_set = (\<lambda>v. {}),
      bj_intento_valor_idx = (\<lambda>v. 0), bj_idx_actual = 0\<rparr>"

definition backjumping ::
  "var list dict \<Rightarrow> var list \<Rightarrow> val list dict \<Rightarrow> (error + val dict option) option" where
  "backjumping adj orden_vars dominios = bj_bucle adj orden_vars dominios bj_inicial"


text \<open>The state after \<open>n\<close> turns of the \<open>while True\<close> loop, or the return within them.\<close>

fun bj_iterar :: "nat \<Rightarrow> var list dict \<Rightarrow> var list \<Rightarrow> val list dict \<Rightarrow> bj_estado \<Rightarrow> paso" where
  "bj_iterar 0 adj orden_vars dominios s = Sigue s"
| "bj_iterar (Suc n) adj orden_vars dominios s =
     (case bj_paso adj orden_vars dominios s of
        Termina r \<Rightarrow> Termina r
      | Sigue s' \<Rightarrow> bj_iterar n adj orden_vars dominios s')"

text \<open>
  A state of the search over \<open>['WA', 'NT', 'SA']\<close> in which the loop is at \<open>NT\<close>, every
  value of \<open>NT\<close> (there are \<open>n\<close>) has been tried, and the conflict set of \<open>NT\<close> holds
  \<open>NT\<close> itself.
\<close>

definition atascado_NT :: "nat \<Rightarrow> bj_estado \<Rightarrow> bool" where
  "atascado_NT n s =
     (bj_idx_actual s = 1 \<and> n \<le> bj_intento_valor_idx s ''NT''
      \<and> bj_conflict_set s ''NT'' = {''WA'', ''NT''})"

section \<open>File 20: arc consistency (AC-3)\<close>

definition dominio_inicial :: "val list dict" where
  "dominio_inicial = map (\<lambda>v. (v, [''ROJO'', ''VERDE'', ''AZUL''])) variables"

text \<open>
  \<open>revisar_arco\<close> and \<open>ac3\<close> never assign to a key of \<open>dominios\<close>: they change the
  lists the dictionary holds, in place (\<open>dominios[xi].remove(v)\<close>, line 135). Two keys
  may hold the same list object, and then the removal shows under both. So the lists live
  in a memory here: the dictionary maps each variable to the address of its list, the
  memory maps each address to the list stored there, and the functions return the new
  memory with their flag.
\<close>

type_synonym dir = nat
type_synonym memoria = "dir \<Rightarrow> val list"

text \<open>The dictionary as Python would print it.\<close>

definition tabla_de :: "dir dict \<Rightarrow> memoria \<Rightarrow> val list dict" where
  "tabla_de dominios m = map (\<lambda>(x, r). (x, m r)) dominios"

text \<open>
  The domain table of the script (\<open>dominio_inicial\<close>, built by a comprehension, and its
  deep copies): seven different list objects, each holding the three colours.
\<close>

definition direcciones :: "dir dict" where
  "direcciones =
     [(''WA'', 0), (''NT'', 1), (''SA'', 2), (''Q'', 3), (''NSW'', 4), (''V'', 5), (''T'', 6)]"

definition memoria_inicial :: memoria where
  "memoria_inicial = (\<lambda>r. [''ROJO'', ''VERDE'', ''AZUL''])"

text \<open>
  The body of \<open>for v in dominio_xi_actual\<close>: \<open>dominios[xj]\<close> is read again at every
  turn, and \<open>dominios[xi].remove(v)\<close> removes the first occurrence of \<open>v\<close> from the
  list at the address of \<open>xi\<close> (\<open>ValueError\<close> if there is none).
\<close>

fun revisar_bucle ::
  "var list dict \<Rightarrow> dir dict \<Rightarrow> var \<Rightarrow> var \<Rightarrow> val list \<Rightarrow> bool \<times> memoria
     \<Rightarrow> error + bool \<times> memoria" where
  "revisar_bucle adj dominios xi xj [] (cambiado, m) = Inr (cambiado, m)"
| "revisar_bucle adj dominios xi xj (v # resto) (cambiado, m) =
     (case map_of dominios xj of
        None \<Rightarrow> Inl KeyError
      | Some rj \<Rightarrow>
          if list_ex (\<lambda>w. no_conflicto_binario adj xi v xj w) (m rj)
          then revisar_bucle adj dominios xi xj resto (cambiado, m)
          else (case map_of dominios xi of
                  None \<Rightarrow> Inl KeyError
                | Some ri \<Rightarrow>
                    if v \<in> set (m ri)
                    then revisar_bucle adj dominios xi xj resto
                           (True, m(ri := remove1 v (m ri)))
                    else Inl ValueError))"

text \<open>\<open>dominio_xi_actual = dominios[xi][:]\<close> is a copy: the loop runs over the list as it was.\<close>

definition revisar_arco ::
  "var list dict \<Rightarrow> dir dict \<Rightarrow> var \<Rightarrow> var \<Rightarrow> memoria \<Rightarrow> error + bool \<times> memoria" where
  "revisar_arco adj dominios xi xj m =
     (case map_of dominios xi of
        None \<Rightarrow> Inl KeyError
      | Some ri \<Rightarrow> revisar_bucle adj dominios xi xj (m ri) (False, m))"

text \<open>The queue of all directed arcs, built over the module-level list \<open>variables\<close> (here \<open>vars\<close>).\<close>

fun arcos_iniciales :: "var list dict \<Rightarrow> var list \<Rightarrow> error + (var \<times> var) list" where
  "arcos_iniciales adj [] = Inr []"
| "arcos_iniciales adj (xi # resto) =
     (case map_of adj xi of
        None \<Rightarrow> Inl KeyError
      | Some vecinos \<Rightarrow>
          (case arcos_iniciales adj resto of
             Inl e \<Rightarrow> Inl e
           | Inr cola \<Rightarrow> Inr (map (Pair xi) vecinos @ cola)))"

text \<open>
  The total length of the lists of a domain table, each list object counted once. The
  \<open>while cola\<close> loop never increases it.
\<close>

definition tam :: "dir dict \<Rightarrow> memoria \<Rightarrow> nat" where
  "tam dominios m = (\<Sum>r \<in> snd ` set dominios. length (m r))"

lemma tam_update:
  assumes "r \<in> snd ` set d"
  shows "tam d (m(r := l')) + length (m r) = tam d m + length l'"
proof -
  let ?A = "snd ` set d"
  have 1: "tam d m = length (m r) + (\<Sum>x \<in> ?A - {r}. length (m x))"
    unfolding tam_def using assms by (simp add: sum.remove)
  have 2: "tam d (m(r := l')) = length l' + (\<Sum>x \<in> ?A - {r}. length ((m(r := l')) x))"
    unfolding tam_def using assms by (simp add: sum.remove)
  have 3: "(\<Sum>x \<in> ?A - {r}. length ((m(r := l')) x)) = (\<Sum>x \<in> ?A - {r}. length (m x))"
    by (rule sum.cong) auto
  from 1 2 3 show ?thesis by simp
qed

lemma revisar_bucle_tam:
  "revisar_bucle adj d xi xj vs (c, m) = Inr (c1, m1) \<Longrightarrow>
     tam d m1 \<le> tam d m \<and> (c \<longrightarrow> c1) \<and> (c1 \<longrightarrow> c \<or> tam d m1 < tam d m)
       \<and> (\<not> c1 \<longrightarrow> m1 = m)"
proof (induction vs arbitrary: c m)
  case Nil
  then show ?case by simp
next
  case (Cons v vs)
  from Cons.prems obtain rj where rj: "map_of d xj = Some rj"
    by (auto split: option.splits)
  show ?case
  proof (cases "list_ex (\<lambda>w. no_conflicto_binario adj xi v xj w) (m rj)")
    case True
    with Cons.prems rj have "revisar_bucle adj d xi xj vs (c, m) = Inr (c1, m1)" by simp
    from Cons.IH[OF this] show ?thesis .
  next
    case False
    with Cons.prems rj obtain ri where ri: "map_of d xi = Some ri" "v \<in> set (m ri)"
      and r: "revisar_bucle adj d xi xj vs (True, m(ri := remove1 v (m ri))) = Inr (c1, m1)"
      by (auto split: option.splits if_splits)
    define m2 where "m2 = m(ri := remove1 v (m ri))"
    from r have r2: "revisar_bucle adj d xi xj vs (True, m2) = Inr (c1, m1)"
      by (simp add: m2_def)
    from ri(1) have en: "ri \<in> snd ` set d"
      by (auto dest!: map_of_SomeD intro: rev_image_eqI)
    from ri(2) have "length (remove1 v (m ri)) < length (m ri)"
      by (simp add: length_remove1) (cases "m ri"; auto)
    with tam_update[OF en, of m "remove1 v (m ri)"]
    have "tam d m2 < tam d m" unfolding m2_def by linarith
    with Cons.IH[OF r2] show ?thesis by auto
  qed
qed

lemma revisar_arco_tam:
  "revisar_arco adj d xi xj m = Inr (c1, m1) \<Longrightarrow>
     (c1 \<longrightarrow> tam d m1 < tam d m) \<and> (\<not> c1 \<longrightarrow> m1 = m)"
  by (auto simp: revisar_arco_def split: option.splits dest: revisar_bucle_tam)

text \<open>The \<open>while cola\<close> loop of \<open>ac3\<close> (lines 157 to 177).\<close>

function ac3_bucle ::
  "var list dict \<Rightarrow> dir dict \<Rightarrow> (var \<times> var) list \<Rightarrow> memoria \<Rightarrow> error + bool \<times> memoria" where
  "ac3_bucle adj dominios [] m = Inr (True, m)"
| "ac3_bucle adj dominios ((xi, xj) # cola) m =
     (case revisar_arco adj dominios xi xj m of
        Inl e \<Rightarrow> Inl e
      | Inr (cambiado, m') \<Rightarrow>
          if cambiado
          then (case map_of dominios xi of
                  None \<Rightarrow> Inl KeyError
                | Some ri \<Rightarrow>
                    if length (m' ri) = 0 then Inr (False, m')
                    else (case map_of adj xi of
                            None \<Rightarrow> Inl KeyError
                          | Some vecinos \<Rightarrow>
                              ac3_bucle adj dominios
                                (cola @ map (\<lambda>xk. (xk, xi)) (filter (\<lambda>xk. xk \<noteq> xj) vecinos))
                                m'))
          else ac3_bucle adj dominios cola m')"
  by pat_completeness auto
termination
  by (relation "inv_image (less_than <*lex*> less_than)
                  (\<lambda>(adj, dominios, cola, m). (tam dominios m, length cola))")
     (auto dest: revisar_arco_tam)

definition ac3 ::
  "var list dict \<Rightarrow> var list \<Rightarrow> dir dict \<Rightarrow> memoria \<Rightarrow> error + bool \<times> memoria" where
  "ac3 adj vars dominios m =
     (case arcos_iniciales adj vars of
        Inl e \<Rightarrow> Inl e
      | Inr cola \<Rightarrow> ac3_bucle adj dominios cola m)"

text \<open>
  \<open>dominios[x]\<close> read as a list (empty for a missing key), the support of a value of
  \<open>xi\<close> in the domain of \<open>xj\<close>, and the consistency of the arc \<open>(xi, xj)\<close>.
\<close>

definition dominio_de :: "dir dict \<Rightarrow> memoria \<Rightarrow> var \<Rightarrow> val list" where
  "dominio_de d m x = (case map_of d x of None \<Rightarrow> [] | Some r \<Rightarrow> m r)"




text \<open>
  The two properties of the adjacency table of the scripts that the propagation relies on:
  the table is symmetric, and no variable is its own neighbour.
\<close>

definition simetrica :: "var list dict \<Rightarrow> bool" where
  "simetrica adj = list_all (\<lambda>(a, vs). list_all (\<lambda>b. a \<in> set (vecinos_de adj b)) vs) adj"

definition irreflexiva :: "var list dict \<Rightarrow> bool" where
  "irreflexiva adj = list_all (\<lambda>(a, vs). a \<notin> set vs) adj"

text \<open>
  A domain table in which \<open>WA\<close> and \<open>V\<close> hold the same list object, as after
  \<open>L = ['ROJO', 'VERDE']; dominios['WA'] = L; dominios['V'] = L\<close>, with \<open>['VERDE']\<close>
  for \<open>T\<close> and the three colours for the other variables.
\<close>

definition tabla_compartida :: "dir dict" where
  "tabla_compartida =
     [(''WA'', 0), (''NT'', 1), (''SA'', 2), (''Q'', 3), (''NSW'', 4), (''V'', 0), (''T'', 6)]"

definition memoria_compartida :: memoria where
  "memoria_compartida = memoria_inicial(0 := [''ROJO'', ''VERDE''], 6 := [''VERDE''])"


section \<open>File 19: forward checking\<close>

text \<open>
  \<open>podar_dominios\<close> works on a deep copy of the caller's dictionary. To state that the
  caller's dictionary is left as it was, dictionaries live in a heap here: a reference is
  an index into the list of dictionaries, and \<open>copy.deepcopy\<close> allocates a new one at the
  end. The function returns its result (a reference, \<open>None\<close>, or an exception) with the
  heap it leaves. The parameter \<open>nivel\<close> only indents the trace and is left out.

  Lines 124 to 129: the values of the neighbour that do not clash with
  \<open>var_actual = valor_actual\<close>.
\<close>

type_synonym ref = nat
type_synonym heap = "val list dict list"

definition filtrado :: "var list dict \<Rightarrow> var \<Rightarrow> val \<Rightarrow> var \<Rightarrow> val list \<Rightarrow> val list" where
  "filtrado adj var_actual valor_actual vecino dominio_vecino =
     filter (\<lambda>val_vecino. no_conflicto_binario adj var_actual valor_actual vecino val_vecino)
       dominio_vecino"

text \<open>The loop \<open>for vecino in adyacentes[var_actual]\<close> (lines 118 to 138).\<close>

fun podar_vecinos ::
  "var list dict \<Rightarrow> val dict \<Rightarrow> var \<Rightarrow> val \<Rightarrow> ref \<Rightarrow> var list \<Rightarrow> heap
     \<Rightarrow> (error + ref option) \<times> heap" where
  "podar_vecinos adj asignacion var_actual valor_actual nuevos_dominios [] h =
     (Inr (Some nuevos_dominios), h)"
| "podar_vecinos adj asignacion var_actual valor_actual nuevos_dominios (vecino # resto) h =
     (if vecino \<in> fst ` set asignacion
      then podar_vecinos adj asignacion var_actual valor_actual nuevos_dominios resto h
      else (case map_of (h ! nuevos_dominios) vecino of
              None \<Rightarrow> (Inl KeyError, h)
            | Some dominio_vecino \<Rightarrow>
                (let dominio_filtrado =
                       filtrado adj var_actual valor_actual vecino dominio_vecino
                 in if length dominio_filtrado = 0 then (Inr None, h)
                    else podar_vecinos adj asignacion var_actual valor_actual nuevos_dominios
                           resto
                           (h[nuevos_dominios :=
                                AList.update vecino dominio_filtrado (h ! nuevos_dominios)]))))"

definition podar_dominios ::
  "var list dict \<Rightarrow> heap \<Rightarrow> ref \<Rightarrow> val dict \<Rightarrow> var \<Rightarrow> val \<Rightarrow> (error + ref option) \<times> heap" where
  "podar_dominios adj h dominios asignacion var_actual valor_actual =
     (let nuevos_dominios = length h;
          h1 = h @ [h ! dominios];
          h2 = h1[nuevos_dominios :=
                    AList.update var_actual [valor_actual] (h1 ! nuevos_dominios)]
      in case map_of adj var_actual of
           None \<Rightarrow> (Inl KeyError, h2)
         | Some vecinos \<Rightarrow>
             podar_vecinos adj asignacion var_actual valor_actual nuevos_dominios vecinos h2)"



text \<open>
  What a returned assignment should satisfy: each entry is consistent with the entries
  before it; every value comes from the domain of its variable; adjacent variables that are
  both assigned have different values.
\<close>

definition en_orden :: "var list dict \<Rightarrow> val dict \<Rightarrow> bool" where
  "en_orden adj a =
     (\<forall>i < length a. es_consistente_con_asignacion adj (take i a) (fst (a ! i)) (snd (a ! i)))"

definition de_dominios :: "val list dict \<Rightarrow> val dict \<Rightarrow> bool" where
  "de_dominios dominios a =
     list_all (\<lambda>(x, v). case map_of dominios x of None \<Rightarrow> False | Some d \<Rightarrow> v \<in> set d) a"

definition sin_conflictos :: "var list dict \<Rightarrow> val dict \<Rightarrow> bool" where
  "sin_conflictos adj a =
     list_all (\<lambda>(u, cu). list_all (\<lambda>(w, cw). w \<notin> set (vecinos_de adj u) \<or> cu \<noteq> cw) a) a"

section \<open>Properties of the backjumping loop\<close>

lemma bj_bucle_iterar:
  "bj_bucle adj ov d s =
     (case bj_iterar n adj ov d s of Termina r \<Rightarrow> Some r | Sigue s' \<Rightarrow> bj_bucle adj ov d s')"
proof (induction n arbitrary: s)
  case 0
  show ?case by simp
next
  case (Suc n)
  show ?case
    by (subst bj_bucle.simps) (simp add: Suc.IH split: paso.split)
qed

lemma probar_desde_agotado:
  "\<not> bj_intento_valor_idx s v < length dominio \<Longrightarrow>
     probar_desde adj ov v dominio s = (False, s)"
  by (subst probar_desde.simps) simp

lemmas bj_eval = bj_inicial_def bj_paso_def probar_desde.simps saltar_def
  aterrizar_def limpiar_def limpiar_uno_def heredar_conflictos_def salto_idx_de_def
  es_consistente_con_parcial_def no_conflicto_binario_def vecinos_de_def adyacentes_def
  Let_def upt_conv_Cons

text \<open>
  Once the conflict set of an exhausted variable holds the variable itself and nothing
  later in the order, the jump lands on the same index: the turn changes nothing but the
  trial index, which only grows.
\<close>

lemma atascado_paso:
  assumes "atascado_NT (length dominio) s" and "map_of d ''NT'' = Some dominio"
  shows "\<exists>s'. bj_paso adj [''WA'', ''NT'', ''SA''] d s = Sigue s'
              \<and> atascado_NT (length dominio) s'"
  using assms
  by (simp add: atascado_NT_def bj_paso_def probar_desde_agotado saltar_def
        aterrizar_def limpiar_def limpiar_uno_def heredar_conflictos_def salto_idx_de_def
        Let_def upt_conv_Cons)

lemma atascado_nunca:
  assumes r: "bj_bucle adj ov d s = Some y"
  shows "ov = [''WA'', ''NT'', ''SA''] \<longrightarrow> map_of d ''NT'' = Some dominio
           \<longrightarrow> \<not> atascado_NT (length dominio) s"
proof (rule bj_bucle.raw_induct[where P = "\<lambda>adj ov d s y.
     ov = [''WA'', ''NT'', ''SA''] \<longrightarrow> map_of d ''NT'' = Some dominio
       \<longrightarrow> \<not> atascado_NT (length dominio) s", OF _ r])
  fix bucle adj ov d s y
  assume IH: "\<And>adj ov d s y. bucle adj ov d s = Some y \<Longrightarrow>
     ov = [''WA'', ''NT'', ''SA''] \<longrightarrow> map_of d ''NT'' = Some dominio
       \<longrightarrow> \<not> atascado_NT (length dominio) s"
    and st: "(case bj_paso adj ov d s of Termina r \<Rightarrow> Some r
              | Sigue s' \<Rightarrow> bucle adj ov d s') = Some y"
  show "ov = [''WA'', ''NT'', ''SA''] \<longrightarrow> map_of d ''NT'' = Some dominio
          \<longrightarrow> \<not> atascado_NT (length dominio) s"
  proof (intro impI notI)
    assume ov: "ov = [''WA'', ''NT'', ''SA'']" and d: "map_of d ''NT'' = Some dominio"
      and a: "atascado_NT (length dominio) s"
    from atascado_paso[OF a d, of adj] obtain s' where
      s': "bj_paso adj [''WA'', ''NT'', ''SA''] d s = Sigue s'"
          "atascado_NT (length dominio) s'"
      by blast
    from st s'(1) ov have "bucle adj ov d s' = Some y" by simp
    from IH[OF this] ov d s'(2) show False by blast
  qed
qed

lemma atascado_diverge:
  assumes "atascado_NT (length dominio) s" and "map_of d ''NT'' = Some dominio"
  shows "bj_bucle adj [''WA'', ''NT'', ''SA''] d s = None"
  using atascado_nunca[of adj "[''WA'', ''NT'', ''SA'']" d s _ dominio] assms
  by (cases "bj_bucle adj [''WA'', ''NT'', ''SA''] d s") auto

text \<open>
  C1. Every assignment returned as a solution by backtracking (file 18) and by
  backjumping (file 21) maps every variable of the variable list to a value, and adjacent
  variables get different values. Backjumping breaks it: with the adjacency table of the
  script, the order \<open>['SA', 'WA', 'Q']\<close> and the domains \<open>SA: [ROJO, VERDE]\<close>,
  \<open>WA: [VERDE, AZUL]\<close>, \<open>Q: [ROJO]\<close>, it returns as its solution a dictionary
  with no entry for \<open>SA\<close>, while backtracking returns a complete colouring.
\<close>

theorem backjumping_devuelve_asignacion_incompleta:
  "backjumping adyacentes [''SA'', ''WA'', ''Q'']
     [(''SA'', [''ROJO'', ''VERDE'']), (''WA'', [''VERDE'', ''AZUL'']), (''Q'', [''ROJO''])]
   = Some (Inr (Some [(''WA'', ''AZUL''), (''Q'', ''ROJO'')]))
   \<and> backtracking adyacentes [''SA'', ''WA'', ''Q'']
     [(''SA'', [''ROJO'', ''VERDE'']), (''WA'', [''VERDE'', ''AZUL'']), (''Q'', [''ROJO''])]
     4 []
   = Inr (Exito [(''SA'', ''VERDE''), (''WA'', ''AZUL''), (''Q'', ''ROJO'')])"
proof
  show "backjumping adyacentes [''SA'', ''WA'', ''Q'']
     [(''SA'', [''ROJO'', ''VERDE'']), (''WA'', [''VERDE'', ''AZUL'']), (''Q'', [''ROJO''])]
   = Some (Inr (Some [(''WA'', ''AZUL''), (''Q'', ''ROJO'')]))"
    by (simp add: backjumping_def bj_eval bj_bucle.simps)
  show "backtracking adyacentes [''SA'', ''WA'', ''Q'']
     [(''SA'', [''ROJO'', ''VERDE'']), (''WA'', [''VERDE'', ''AZUL'']), (''Q'', [''ROJO''])]
     4 []
   = Inr (Exito [(''SA'', ''VERDE''), (''WA'', ''AZUL''), (''Q'', ''ROJO'')])"
    by (simp add: adyacentes_def es_consistente_con_asignacion_def no_conflicto_binario_def
          vecinos_de_def numeral_nat)
qed

text \<open>
  C2. Backjumping returns a solution whenever backtracking does, and returns no solution
  exactly when backtracking returns none. The code breaks it: with the adjacency table of
  the script, the order \<open>['WA', 'NT', 'SA']\<close> and the domains \<open>WA: [ROJO, VERDE]\<close>,
  \<open>NT: [AZUL]\<close>, \<open>SA: [ROJO, AZUL]\<close>, backtracking returns a colouring and the
  loop of backjumping never returns.
\<close>

theorem backjumping_no_retorna_donde_backtracking_resuelve:
  "backtracking adyacentes [''WA'', ''NT'', ''SA'']
     [(''WA'', [''ROJO'', ''VERDE'']), (''NT'', [''AZUL'']), (''SA'', [''ROJO'', ''AZUL''])]
     4 []
   = Inr (Exito [(''WA'', ''VERDE''), (''NT'', ''AZUL''), (''SA'', ''ROJO'')])
   \<and> backjumping adyacentes [''WA'', ''NT'', ''SA'']
     [(''WA'', [''ROJO'', ''VERDE'']), (''NT'', [''AZUL'']), (''SA'', [''ROJO'', ''AZUL''])]
   = None"
proof
  let ?d = "[(''WA'', [''ROJO'', ''VERDE'']), (''NT'', [''AZUL'']),
             (''SA'', [''ROJO'', ''AZUL''])]"
  show "backtracking adyacentes [''WA'', ''NT'', ''SA''] ?d 4 []
          = Inr (Exito [(''WA'', ''VERDE''), (''NT'', ''AZUL''), (''SA'', ''ROJO'')])"
    by (simp add: adyacentes_def es_consistente_con_asignacion_def no_conflicto_binario_def
          vecinos_de_def numeral_nat)
  have "case bj_iterar 3 adyacentes [''WA'', ''NT'', ''SA''] ?d bj_inicial of
          Termina r \<Rightarrow> False | Sigue s \<Rightarrow> atascado_NT 1 s"
    by (simp add: numeral_3_eq_3 bj_eval atascado_NT_def insert_commute)
  then obtain s where
    s: "bj_iterar 3 adyacentes [''WA'', ''NT'', ''SA''] ?d bj_inicial = Sigue s"
       "atascado_NT 1 s"
    by (auto split: paso.splits)
  have "bj_bucle adyacentes [''WA'', ''NT'', ''SA''] ?d s = None"
    using s by (intro atascado_diverge[where dominio = "[''AZUL'']"]) simp_all
  then show "backjumping adyacentes [''WA'', ''NT'', ''SA''] ?d = None"
    unfolding backjumping_def
    by (subst bj_bucle_iterar[where n = 3]) (simp add: s)
qed

text \<open>
  C3. When the domain of the current variable is exhausted, the jump target is the
  highest index in its conflict set, the conflict set is merged into the target's, and
  every variable between the target and the current depth is unassigned and reset. The
  loop of lines 234 to 247 starts at \<open>idx_actual\<close>, not at the target: with the order
  \<open>['SA', 'WA', 'Q']\<close> and the domains of C1, after two turns the search is at index 2
  with \<open>SA = ROJO\<close> and \<open>WA = VERDE\<close>; the third turn exhausts \<open>Q\<close> and jumps to
  index 0, and \<open>WA\<close> (index 1) and \<open>SA\<close> are still assigned.
\<close>

theorem saltar_no_desasigna_intermedias:
  "(case bj_iterar 2 adyacentes [''SA'', ''WA'', ''Q'']
          [(''SA'', [''ROJO'', ''VERDE'']), (''WA'', [''VERDE'', ''AZUL'']), (''Q'', [''ROJO''])]
          bj_inicial of
      Termina r \<Rightarrow> False
    | Sigue s \<Rightarrow> bj_idx_actual s = 2
         \<and> bj_asignacion_parcial s = [(''SA'', ''ROJO''), (''WA'', ''VERDE'')])
   \<and> (case bj_iterar 3 adyacentes [''SA'', ''WA'', ''Q'']
          [(''SA'', [''ROJO'', ''VERDE'']), (''WA'', [''VERDE'', ''AZUL'']), (''Q'', [''ROJO''])]
          bj_inicial of
      Termina r \<Rightarrow> False
    | Sigue s \<Rightarrow> bj_idx_actual s = 0
         \<and> bj_asignacion_parcial s = [(''SA'', ''ROJO''), (''WA'', ''VERDE'')]
         \<and> bj_conflict_set s ''SA'' = {''SA''}
         \<and> bj_intento_valor_idx s ''SA'' = 1)"
  by (simp add: numeral_2_eq_2 numeral_3_eq_3 bj_eval)

text \<open>
  C7. On an unsolvable instance, such as three mutually adjacent variables with two
  values each, backtracking and backjumping end and return \<open>None\<close>. Backtracking does;
  the loop of backjumping never returns on \<open>WA\<close>, \<open>NT\<close>, \<open>SA\<close> (mutually adjacent in
  the table of the script) with the domain \<open>[ROJO, VERDE]\<close> each.
\<close>

theorem backjumping_no_retorna_en_triangulo:
  "backtracking adyacentes [''WA'', ''NT'', ''SA'']
     [(''WA'', [''ROJO'', ''VERDE'']), (''NT'', [''ROJO'', ''VERDE'']),
      (''SA'', [''ROJO'', ''VERDE''])] 4 []
   = Inr (Fallo [])
   \<and> backjumping adyacentes [''WA'', ''NT'', ''SA'']
     [(''WA'', [''ROJO'', ''VERDE'']), (''NT'', [''ROJO'', ''VERDE'']),
      (''SA'', [''ROJO'', ''VERDE''])]
   = None"
proof
  let ?d = "[(''WA'', [''ROJO'', ''VERDE'']), (''NT'', [''ROJO'', ''VERDE'']),
             (''SA'', [''ROJO'', ''VERDE''])]"
  show "backtracking adyacentes [''WA'', ''NT'', ''SA''] ?d 4 [] = Inr (Fallo [])"
    by (simp add: adyacentes_def es_consistente_con_asignacion_def no_conflicto_binario_def
          vecinos_de_def numeral_nat)
  have "case bj_iterar 3 adyacentes [''WA'', ''NT'', ''SA''] ?d bj_inicial of
          Termina r \<Rightarrow> False | Sigue s \<Rightarrow> atascado_NT 2 s"
    by (simp add: numeral_3_eq_3 bj_eval atascado_NT_def insert_commute)
  then obtain s where
    s: "bj_iterar 3 adyacentes [''WA'', ''NT'', ''SA''] ?d bj_inicial = Sigue s"
       "atascado_NT 2 s"
    by (auto split: paso.splits)
  have "bj_bucle adyacentes [''WA'', ''NT'', ''SA''] ?d s = None"
    using s by (intro atascado_diverge[where dominio = "[''ROJO'', ''VERDE'']"])
      (simp_all add: numeral_2_eq_2)
  then show "backjumping adyacentes [''WA'', ''NT'', ''SA''] ?d = None"
    unfolding backjumping_def
    by (subst bj_bucle_iterar[where n = 3]) (simp add: s)
qed


section \<open>Properties of the arc-consistency propagation\<close>

lemma vecinos_de_en_tabla:
  "b \<in> set (vecinos_de adj a) \<Longrightarrow> \<exists>vs. (a, vs) \<in> set adj \<and> map_of adj a = Some vs \<and> b \<in> set vs"
  by (cases "map_of adj a") (auto simp: vecinos_de_def dest: map_of_SomeD)

lemma simetricaD:
  "simetrica adj \<Longrightarrow> b \<in> set (vecinos_de adj a) \<Longrightarrow> a \<in> set (vecinos_de adj b)"
  by (drule vecinos_de_en_tabla) (auto simp: simetrica_def list_all_iff)

lemma irreflexivaD: "irreflexiva adj \<Longrightarrow> a \<notin> set (vecinos_de adj a)"
  by (auto simp: irreflexiva_def list_all_iff dest!: vecinos_de_en_tabla)




















lemmas ac3_eval = ac3_def variables_def adyacentes_def revisar_arco_def
  no_conflicto_binario_def vecinos_de_def


lemma adyacentes_irreflexiva: "irreflexiva adyacentes"
  by (simp add: irreflexiva_def adyacentes_def)


lemma tabla_inicial: "tabla_de direcciones memoria_inicial = dominio_inicial"
  by (simp add: tabla_de_def direcciones_def memoria_inicial_def dominio_inicial_def
        variables_def)

lemmas ac3_tablas = direcciones_def memoria_inicial_def tabla_de_def dominio_de_def
  tabla_compartida_def memoria_compartida_def







text \<open>
  C9. \<open>ac3\<close> on the seven variables of the Australia map, every domain holding the three
  colours (seven different lists, as the script builds them), returns \<open>True\<close> and
  removes nothing.
\<close>

theorem ac3_australia_no_poda:
  "ac3 adyacentes variables direcciones memoria_inicial = Inr (True, memoria_inicial)
   \<and> tabla_de direcciones memoria_inicial = dominio_inicial
   \<and> dominio_inicial =
       [(''WA'', [''ROJO'', ''VERDE'', ''AZUL'']), (''NT'', [''ROJO'', ''VERDE'', ''AZUL'']),
        (''SA'', [''ROJO'', ''VERDE'', ''AZUL'']), (''Q'', [''ROJO'', ''VERDE'', ''AZUL'']),
        (''NSW'', [''ROJO'', ''VERDE'', ''AZUL'']), (''V'', [''ROJO'', ''VERDE'', ''AZUL'']),
        (''T'', [''ROJO'', ''VERDE'', ''AZUL''])]"
  by (simp add: ac3_eval ac3_tablas dominio_inicial_def)


section \<open>Properties of the backtracking search\<close>

lemma length_update:
  "length (AList.update k v al) = (if k \<in> fst ` set al then length al else Suc (length al))"
  by (induction al) auto

lemma update_nueva: "k \<notin> fst ` set al \<Longrightarrow> AList.update k v al = al @ [(k, v)]"
  by (induction al) auto

lemma consistente_update_propia:
  assumes "irreflexiva adj"
  shows "es_consistente_con_asignacion adj (AList.update x v asg) x v'
           = es_consistente_con_asignacion adj asg x v'"
proof -
  have propio: "no_conflicto_binario adj x v' x c" for c
    using irreflexivaD[OF assms, of x] by (simp add: no_conflicto_binario_def)
  show ?thesis
    by (induction asg) (auto simp: es_consistente_con_asignacion_def propio)
qed

text \<open>A variable that is already a key and has a consistent value: the recursion never returns.\<close>

lemma probar_valores_error:
  assumes rec: "\<And>v. v \<in> set vs \<Longrightarrow> es_consistente_con_asignacion adj asg x v \<Longrightarrow>
                  \<exists>e. rec (AList.update x v asg) = Inl e"
    and ex: "\<exists>v \<in> set vs. es_consistente_con_asignacion adj asg x v"
  shows "\<exists>e. probar_valores adj rec x vs asg = Inl e"
  using assms
proof (induction vs)
  case Nil
  then show ?case by simp
next
  case (Cons v vs)
  show ?case
  proof (cases "es_consistente_con_asignacion adj asg x v")
    case True
    with Cons.prems(1)[of v] obtain e where "rec (AList.update x v asg) = Inl e" by auto
    with True show ?thesis by simp
  next
    case False
    with Cons.prems(2) have "\<exists>v \<in> set vs. es_consistente_con_asignacion adj asg x v" by auto
    from Cons.IH[OF _ this] Cons.prems(1) False show ?thesis by simp
  qed
qed

lemma backtracking_ya_asignada:
  assumes irr: "irreflexiva adj"
  shows "length asg < length vars \<Longrightarrow> vars ! length asg \<in> fst ` set asg \<Longrightarrow>
         map_of doms (vars ! length asg) = Some dominio \<Longrightarrow>
         \<exists>v \<in> set dominio. es_consistente_con_asignacion adj asg (vars ! length asg) v \<Longrightarrow>
         \<exists>e. backtracking adj vars doms n asg = Inl e"
proof (induction n arbitrary: asg)
  case 0
  then show ?case by simp
next
  case (Suc n)
  let ?x = "vars ! length asg"
  have "\<exists>e. probar_valores adj (backtracking adj vars doms n) ?x dominio asg = Inl e"
  proof (rule probar_valores_error[OF _ Suc.prems(4)])
    fix v assume v: "v \<in> set dominio" "es_consistente_con_asignacion adj asg ?x v"
    let ?asg = "AList.update ?x v asg"
    from Suc.prems(2) have len: "length ?asg = length asg" by (simp add: length_update)
    have "\<exists>e. backtracking adj vars doms n ?asg = Inl e"
    proof (rule Suc.IH)
      show "length ?asg < length vars" using len Suc.prems(1) by simp
      show "vars ! length ?asg \<in> fst ` set ?asg" by (simp add: len dom_update)
      show "map_of doms (vars ! length ?asg) = Some dominio" using len Suc.prems(3) by simp
      show "\<exists>v\<in>set dominio. es_consistente_con_asignacion adj ?asg (vars ! length ?asg) v"
        using v by (auto simp: len consistente_update_propia[OF irr])
    qed
    then show "\<exists>e. backtracking adj vars doms n ?asg = Inl e" .
  qed
  with Suc.prems(1,3) show ?case by simp
qed

lemma probar_valores_restaura:
  assumes rec: "\<And>a a'. rec a = Inr (Fallo a') \<Longrightarrow> a' = a"
    and ya: "\<And>v. x \<in> fst ` set asg \<Longrightarrow> v \<in> set vs \<Longrightarrow>
                es_consistente_con_asignacion adj asg x v \<Longrightarrow>
                \<exists>e. rec (AList.update x v asg) = Inl e"
  shows "probar_valores adj rec x vs asg = Inr (Fallo asg') \<Longrightarrow> asg' = asg"
  using ya
proof (induction vs)
  case Nil
  then show ?case by simp
next
  case (Cons v vs)
  show ?case
  proof (cases "es_consistente_con_asignacion adj asg x v")
    case False
    with Cons.prems(1) have "probar_valores adj rec x vs asg = Inr (Fallo asg')" by simp
    from Cons.IH[OF this] Cons.prems(2) show ?thesis by simp
  next
    case True
    show ?thesis
    proof (cases "x \<in> fst ` set asg")
      case ya: True
      from Cons.prems(2)[OF ya _ True] obtain e where "rec (AList.update x v asg) = Inl e"
        by auto
      with True Cons.prems(1) show ?thesis by simp
    next
      case nueva: False
      from True Cons.prems(1) obtain a where a: "rec (AList.update x v asg) = Inr (Fallo a)"
        and sig: "probar_valores adj rec x vs (AList.delete x a) = Inr (Fallo asg')"
        by (auto split: sum.splits resultado.splits if_splits)
      from rec[OF a] have "a = AList.update x v asg" .
      with nueva have "AList.delete x a = asg" by (simp add: delete_update_same)
      with sig have "probar_valores adj rec x vs asg = Inr (Fallo asg')" by simp
      from Cons.IH[OF this] Cons.prems(2) show ?thesis by simp
    qed
  qed
qed

lemma probar_valores_prefijo:
  assumes nueva: "x \<notin> fst ` set asg"
    and rec: "\<And>v. (\<exists>a. rec (AList.update x v asg) = Inr (Exito a))
                   \<or> rec (AList.update x v asg) = Inr (Fallo (AList.update x v asg))"
  shows "(\<exists>a. probar_valores adj rec x vs asg = Inr (Exito a))
         \<or> probar_valores adj rec x vs asg = Inr (Fallo asg)"
proof (induction vs)
  case Nil
  show ?case by simp
next
  case (Cons v vs)
  from nueva have del: "AList.delete x (AList.update x v asg) = asg"
    by (simp add: delete_update_same)
  from rec[of v] Cons.IH show ?case
    by (auto simp: del dom_update)
qed

lemma probar_valores_prefijo_falla:
  assumes nueva: "x \<notin> fst ` set asg"
    and rec: "\<And>v. rec (AList.update x v asg) = Inr (Fallo (AList.update x v asg))"
  shows "probar_valores adj rec x vs asg = Inr (Fallo asg)"
proof (induction vs)
  case Nil
  show ?case by simp
next
  case (Cons v vs)
  from nueva have del: "AList.delete x (AList.update x v asg) = asg"
    by (simp add: delete_update_same)
  from rec[of v] Cons.IH show ?case
    by (auto simp: del dom_update)
qed

lemma backtracking_prefijo:
  assumes dist: "distinct vars" and doms: "\<forall>v \<in> set vars. map_of doms v \<noteq> None"
  shows "map fst asg = take (length asg) vars \<Longrightarrow> length asg \<le> length vars \<Longrightarrow>
         length vars - length asg < n \<Longrightarrow>
         ((\<exists>a. backtracking adj vars doms n asg = Inr (Exito a))
            \<or> backtracking adj vars doms n asg = Inr (Fallo asg))
         \<and> ((\<exists>x \<in> set (drop (length asg) vars). map_of doms x = Some []) \<longrightarrow>
              backtracking adj vars doms n asg = Inr (Fallo asg))"
proof (induction n arbitrary: asg)
  case 0
  then show ?case by simp
next
  case (Suc n)
  show ?case
  proof (cases "length asg = length vars")
    case True
    then show ?thesis by simp
  next
    case False
    with Suc.prems(2) have k: "length asg < length vars" by simp
    let ?x = "vars ! length asg"
    from k have xin: "?x \<in> set vars" by simp
    with doms obtain dominio where dom: "map_of doms ?x = Some dominio" by auto
    have "?x \<notin> set (take (length asg) vars)"
      using dist k by (auto simp: in_set_conv_nth nth_eq_iff_index_eq)
    with Suc.prems(1) have nueva: "?x \<notin> fst ` set asg"
      by (metis set_map)
    have bt: "backtracking adj vars doms (Suc n) asg
                = probar_valores adj (backtracking adj vars doms n) ?x dominio asg"
      using k dom by simp
    have ih: "((\<exists>a. backtracking adj vars doms n (AList.update ?x v asg) = Inr (Exito a))
            \<or> backtracking adj vars doms n (AList.update ?x v asg)
                 = Inr (Fallo (AList.update ?x v asg)))
         \<and> ((\<exists>y \<in> set (drop (Suc (length asg)) vars). map_of doms y = Some []) \<longrightarrow>
              backtracking adj vars doms n (AList.update ?x v asg)
                 = Inr (Fallo (AList.update ?x v asg)))" for v
    proof -
      let ?a = "AList.update ?x v asg"
      from nueva have a: "?a = asg @ [(?x, v)]" by (rule update_nueva)
      have 1: "map fst ?a = take (length ?a) vars"
        using Suc.prems(1) k by (simp add: a take_Suc_conv_app_nth)
      have 2: "length ?a \<le> length vars" using k by (simp add: a)
      have 3: "length vars - length ?a < n" using Suc.prems(3) k by (simp add: a)
      from Suc.IH[OF 1 2 3] show ?thesis by (simp add: a)
    qed
    have uno: "(\<exists>a. backtracking adj vars doms (Suc n) asg = Inr (Exito a))
            \<or> backtracking adj vars doms (Suc n) asg = Inr (Fallo asg)"
      unfolding bt using ih by (intro probar_valores_prefijo[OF nueva]) blast
    have dos: "backtracking adj vars doms (Suc n) asg = Inr (Fallo asg)"
      if "\<exists>y \<in> set (drop (length asg) vars). map_of doms y = Some []"
    proof -
      from that Cons_nth_drop_Suc[OF k] have
        "map_of doms ?x = Some [] \<or> (\<exists>y \<in> set (drop (Suc (length asg)) vars). map_of doms y = Some [])"
        by (metis set_ConsD)
      then show ?thesis
      proof
        assume "map_of doms ?x = Some []"
        with dom bt show ?thesis by simp
      next
        assume "\<exists>y \<in> set (drop (Suc (length asg)) vars). map_of doms y = Some []"
        with ih have "\<And>v. backtracking adj vars doms n (AList.update ?x v asg)
                 = Inr (Fallo (AList.update ?x v asg))" by blast
        then show ?thesis unfolding bt by (intro probar_valores_prefijo_falla[OF nueva])
      qed
    qed
    from uno dos show ?thesis by blast
  qed
qed

text \<open>The loop of backjumping never raises when every variable has a domain.\<close>

lemma probar_desde_idx:
  "probar_desde adj ov x dominio s = (b, s') \<Longrightarrow> bj_idx_actual s' = bj_idx_actual s"
proof (induction adj ov x dominio s rule: probar_desde.induct)
  case (1 adj ov x dominio s)
  show ?case
  proof (cases "bj_intento_valor_idx s x < length dominio")
    case False
    with "1.prems" show ?thesis by (subst (asm) probar_desde.simps) simp
  next
    case True
    let ?valor = "dominio ! bj_intento_valor_idx s x"
    obtain consistente conflictos where
      e: "es_consistente_con_parcial adj (bj_asignacion_parcial s) x ?valor
            = (consistente, conflictos)" by force
    show ?thesis
    proof (cases consistente)
      case c: True
      from "1.prems" True e c show ?thesis
        by (subst (asm) probar_desde.simps) (auto simp: Let_def)
    next
      case c: False
      from "1.prems" True e c have
        "probar_desde adj ov x dominio
           (s\<lparr>bj_conflict_set := (bj_conflict_set s)(x := bj_conflict_set s x \<union> conflictos),
              bj_intento_valor_idx :=
                (bj_intento_valor_idx s)(x := bj_intento_valor_idx s x + 1)\<rparr>) = (b, s')"
        by (subst (asm) probar_desde.simps) (simp add: Let_def)
      from "1.IH"[OF True refl refl e[symmetric] c this] show ?thesis by simp
    qed
  qed
qed

lemma indice_menor: "v \<in> set ov \<Longrightarrow> indice ov v < length ov"
  by (induction ov) auto

lemma salto_idx_de_cota:
  assumes "bj_idx_actual s \<le> int (length ov)"
  shows "salto_idx_de ov s \<le> int (length ov)"
proof -
  have "int (Max (indice ov ` (A \<inter> set ov))) \<le> int (length ov)"
    if "indice ov ` (A \<inter> set ov) \<noteq> {}" for A
  proof -
    have "Max (indice ov ` (A \<inter> set ov)) \<in> indice ov ` (A \<inter> set ov)"
      using that by (intro Max_in) auto
    then obtain v where "v \<in> set ov" "Max (indice ov ` (A \<inter> set ov)) = indice ov v"
      by auto
    with indice_menor[of v ov] show ?thesis by simp
  qed
  with assms show ?thesis by (auto simp: salto_idx_de_def Let_def)
qed

lemma limpiar_idx: "bj_idx_actual (foldl (limpiar_uno ov k) s is) = bj_idx_actual s"
  by (induction "is" arbitrary: s) (auto simp: limpiar_uno_def Let_def)

lemma saltar_idx: "bj_idx_actual (saltar ov s) = salto_idx_de ov s"
  by (simp add: saltar_def Let_def aterrizar_def)

lemma bj_paso_sin_error:
  assumes "bj_idx_actual s \<le> int (length ov)" and "\<forall>v \<in> set ov. map_of d v \<noteq> None"
  shows "(case bj_paso adj ov d s of
            Termina r \<Rightarrow> (case r of Inl e \<Rightarrow> False | Inr x \<Rightarrow> True)
          | Sigue s' \<Rightarrow> bj_idx_actual s' \<le> int (length ov))"
proof (cases "bj_idx_actual s < 0 \<or> bj_idx_actual s = int (length ov)")
  case True
  then show ?thesis by (auto simp: bj_paso_def)
next
  case False
  with assms(1) have r: "0 \<le> bj_idx_actual s" "bj_idx_actual s < int (length ov)" by auto
  let ?x = "ov ! nat (bj_idx_actual s)"
  from r have "?x \<in> set ov" by (simp add: nat_less_iff)
  with assms(2) obtain dominio where dom: "map_of d ?x = Some dominio" by auto
  obtain b s' where p: "probar_desde adj ov ?x dominio s = (b, s')" by force
  from probar_desde_idx[OF p] have i: "bj_idx_actual s' = bj_idx_actual s" .
  from salto_idx_de_cota[of s' ov] i assms(1)
  have "salto_idx_de ov s' \<le> int (length ov)" by simp
  with r dom p i show ?thesis
    by (cases b) (auto simp: bj_paso_def saltar_idx)
qed

lemma bj_bucle_sin_error:
  assumes r: "bj_bucle adj ov d s = Some y"
  shows "bj_idx_actual s \<le> int (length ov) \<longrightarrow> (\<forall>v \<in> set ov. map_of d v \<noteq> None)
           \<longrightarrow> (\<forall>e. y \<noteq> Inl e)"
proof (rule bj_bucle.raw_induct[where P = "\<lambda>adj ov d s y.
     bj_idx_actual s \<le> int (length ov) \<longrightarrow> (\<forall>v \<in> set ov. map_of d v \<noteq> None)
           \<longrightarrow> (\<forall>e. y \<noteq> Inl e)", OF _ r])
  fix bucle adj ov d s y
  assume IH: "\<And>adj ov d s y. bucle adj ov d s = Some y \<Longrightarrow>
       bj_idx_actual s \<le> int (length ov) \<longrightarrow> (\<forall>v \<in> set ov. map_of d v \<noteq> None)
           \<longrightarrow> (\<forall>e. y \<noteq> Inl e)"
    and st: "(case bj_paso adj ov d s of Termina r \<Rightarrow> Some r
              | Sigue s' \<Rightarrow> bucle adj ov d s') = Some y"
  show "bj_idx_actual s \<le> int (length ov) \<longrightarrow> (\<forall>v \<in> set ov. map_of d v \<noteq> None)
           \<longrightarrow> (\<forall>e. y \<noteq> Inl e)"
  proof (intro impI)
    assume i: "bj_idx_actual s \<le> int (length ov)" and k: "\<forall>v \<in> set ov. map_of d v \<noteq> None"
    show "\<forall>e. y \<noteq> Inl e"
    proof (cases "bj_paso adj ov d s")
      case (Termina r)
      with st bj_paso_sin_error[OF i k, of adj] show ?thesis by (auto split: sum.splits)
    next
      case (Sigue s')
      with st have "bucle adj ov d s' = Some y" by simp
      from IH[OF this] Sigue bj_paso_sin_error[OF i k, of adj] k show ?thesis by simp
    qed
  qed
qed

text \<open>
  C10. Whenever \<open>backtracking\<close> returns \<open>None\<close>, the dictionary
  \<open>asignacion_parcial\<close> of the caller holds what it held at the call: every tentative
  assignment has been removed. It holds for any dictionary, order and domains when no
  variable is adjacent to itself, as in the table of the script.
\<close>

theorem backtracking_fallo_restaura:
  assumes irr: "irreflexiva adj"
    and "backtracking adj vars doms n asg = Inr (Fallo asg')"
  shows "asg' = asg"
  using assms(2)
proof (induction n arbitrary: asg asg')
  case 0
  then show ?case by simp
next
  case (Suc n)
  let ?x = "vars ! length asg"
  from Suc.prems obtain dominio where len: "length asg < length vars"
    and dom: "map_of doms ?x = Some dominio"
    and pv: "probar_valores adj (backtracking adj vars doms n) ?x dominio asg = Inr (Fallo asg')"
    by (auto split: if_splits option.splits)
  show ?case
  proof (rule probar_valores_restaura[OF _ _ pv])
    fix a a' assume "backtracking adj vars doms n a = Inr (Fallo a')"
    then show "a' = a" by (rule Suc.IH)
  next
    fix v assume ya: "?x \<in> fst ` set asg" and v: "v \<in> set dominio"
      "es_consistente_con_asignacion adj asg ?x v"
    let ?asg = "AList.update ?x v asg"
    from ya have l: "length ?asg = length asg" by (simp add: length_update)
    show "\<exists>e. backtracking adj vars doms n ?asg = Inl e"
    proof (rule backtracking_ya_asignada[OF irr])
      show "length ?asg < length vars" using l len by simp
      show "vars ! length ?asg \<in> fst ` set ?asg" by (simp add: l dom_update)
      show "map_of doms (vars ! length ?asg) = Some dominio" using l dom by simp
      show "\<exists>v\<in>set dominio. es_consistente_con_asignacion adj ?asg (vars ! length ?asg) v"
        using v by (auto simp: l consistente_update_propia[OF irr])
    qed
  qed
qed

theorem backtracking_fallo_restaura_witness:
  "irreflexiva adyacentes
   \<and> (\<exists>a. backtracking adyacentes [''WA'', ''NT'', ''SA'']
          [(''WA'', [''ROJO'', ''VERDE'']), (''NT'', [''ROJO'', ''VERDE'']),
           (''SA'', [''ROJO'', ''VERDE''])] 4 [(''WA'', ''ROJO'')] = Inr (Fallo a))
   \<and> backtracking adyacentes [''WA'', ''NT'', ''SA'']
          [(''WA'', [''ROJO'', ''VERDE'']), (''NT'', [''ROJO'', ''VERDE'']),
           (''SA'', [''ROJO'', ''VERDE''])] 4 [(''WA'', ''ROJO'')]
       = Inr (Fallo [(''WA'', ''ROJO'')])"
proof -
  let ?d = "[(''WA'', [''ROJO'', ''VERDE'']), (''NT'', [''ROJO'', ''VERDE'']),
             (''SA'', [''ROJO'', ''VERDE''])]"
  have "\<exists>a. backtracking adyacentes [''WA'', ''NT'', ''SA''] ?d 4 [(''WA'', ''ROJO'')]
              = Inr (Fallo a)"
    by (simp add: adyacentes_def es_consistente_con_asignacion_def no_conflicto_binario_def
          vecinos_de_def numeral_nat)
  then obtain a where
    a: "backtracking adyacentes [''WA'', ''NT'', ''SA''] ?d 4 [(''WA'', ''ROJO'')]
          = Inr (Fallo a)" ..
  from backtracking_fallo_restaura[OF adyacentes_irreflexiva a] a
  show ?thesis by (auto simp: adyacentes_irreflexiva)
qed

text \<open>
  The hypothesis is needed: with a variable adjacent to itself and already a key of the
  dictionary at the call, the failed search removes it.
\<close>

lemma backtracking_fallo_no_restaura_con_lazo:
  "backtracking [(''A'', [''A''])] [''B'', ''A''] [(''A'', [''R''])] 3 [(''A'', ''G'')]
     = Inr (Fallo [])"
  by (simp add: es_consistente_con_asignacion_def no_conflicto_binario_def vecinos_de_def numeral_nat)

text \<open>
  C8. A malformed problem (an asymmetric adjacency table, an empty initial domain) is
  rejected before the search begins. Neither script checks its input: the search runs on
  such a problem. With the asymmetric table \<open>{'A': ['B'], 'B': []}\<close> both searches
  return \<open>A = R, B = R\<close>; with an empty domain for \<open>NT\<close> both run and return
  \<open>None\<close>.
\<close>

theorem problema_mal_formado_no_rechazado:
  "backtracking [(''A'', [''B'']), (''B'', [])] [''A'', ''B'']
      [(''A'', [''R'']), (''B'', [''R''])] 3 []
     = Inr (Exito [(''A'', ''R''), (''B'', ''R'')])
   \<and> backjumping [(''A'', [''B'']), (''B'', [])] [''A'', ''B'']
      [(''A'', [''R'']), (''B'', [''R''])]
     = Some (Inr (Some [(''A'', ''R''), (''B'', ''R'')]))
   \<and> backtracking adyacentes [''WA'', ''NT''] [(''WA'', [''ROJO'']), (''NT'', [])] 3 []
     = Inr (Fallo [])
   \<and> backjumping adyacentes [''WA'', ''NT''] [(''WA'', [''ROJO'']), (''NT'', [])]
     = Some (Inr None)"
  by (simp add: backjumping_def bj_eval bj_bucle.simps es_consistente_con_asignacion_def numeral_nat)

text \<open>
  C8 as amended. For distinct variables that all have an entry in the domain table, and
  any adjacency table, \<open>backtracking\<close> from the empty dictionary returns (no exception),
  and returns \<open>None\<close> when some variable has an empty domain; \<open>backjumping\<close>
  raises no exception either.
\<close>

theorem busqueda_no_valida_entrada:
  assumes "distinct vars" and "\<forall>v \<in> set vars. map_of doms v \<noteq> None" and "length vars < n"
  shows "(\<exists>r. backtracking adj vars doms n [] = Inr r)
       \<and> ((\<exists>x \<in> set vars. map_of doms x = Some []) \<longrightarrow>
            backtracking adj vars doms n [] = Inr (Fallo []))
       \<and> (\<forall>e. backjumping adj vars doms \<noteq> Some (Inl e))"
proof -
  from backtracking_prefijo[OF assms(1,2), of "[]" n adj] assms(3)
  have "(\<exists>r. backtracking adj vars doms n [] = Inr r)
       \<and> ((\<exists>x \<in> set vars. map_of doms x = Some []) \<longrightarrow>
            backtracking adj vars doms n [] = Inr (Fallo []))" by auto
  moreover have "backjumping adj vars doms \<noteq> Some (Inl e)" for e
    using bj_bucle_sin_error[of adj vars doms bj_inicial "Inl e"] assms(2)
    by (auto simp: backjumping_def bj_inicial_def)
  ultimately show ?thesis by blast
qed

theorem busqueda_no_valida_entrada_witness:
  "distinct [''WA'', ''NT'']
   \<and> list_all (\<lambda>v. map_of [(''WA'', [''ROJO'']), (''NT'', [])] v \<noteq> None) [''WA'', ''NT'']
   \<and> length [''WA'', ''NT''] < (3::nat)
   \<and> list_ex (\<lambda>x. map_of [(''WA'', [''ROJO'']), (''NT'', [])] x = Some []) [''WA'', ''NT'']
   \<and> backtracking [(''WA'', [''NT'']), (''NT'', [])] [''WA'', ''NT'']
        [(''WA'', [''ROJO'']), (''NT'', [])] 3 [] = Inr (Fallo [])
   \<and> (\<forall>e. backjumping [(''WA'', [''NT'']), (''NT'', [])] [''WA'', ''NT'']
        [(''WA'', [''ROJO'']), (''NT'', [])] \<noteq> Some (Inl e))"
proof -
  have 1: "distinct [''WA'', ''NT'']" by simp
  have 2: "\<forall>v \<in> set [''WA'', ''NT'']. map_of [(''WA'', [''ROJO'']), (''NT'', [])] v \<noteq> None"
    by simp
  have 3: "length [''WA'', ''NT''] < (3::nat)" by simp
  have 4: "\<exists>x \<in> set [''WA'', ''NT'']. map_of [(''WA'', [''ROJO'']), (''NT'', [])] x = Some []"
    by simp
  from busqueda_no_valida_entrada[OF 1 2 3, of "[(''WA'', [''NT'']), (''NT'', [])]"] 4
  show ?thesis by simp
qed


section \<open>Properties of the forward-checking pruner\<close>









text \<open>
  Two adjacent variables both forced to the same single value: the pruning reports the
  failure, and the caller's dictionary is as before.
\<close>

lemma podar_dominios_detecta_fallo:
  "podar_dominios adyacentes
     [[(''WA'', [''ROJO'']), (''NT'', [''ROJO'']), (''SA'', [''ROJO'', ''AZUL''])]] 0
     [(''WA'', ''ROJO'')] ''WA'' ''ROJO''
   = (Inr None,
      [[(''WA'', [''ROJO'']), (''NT'', [''ROJO'']), (''SA'', [''ROJO'', ''AZUL''])],
       [(''WA'', [''ROJO'']), (''NT'', [''ROJO'']), (''SA'', [''ROJO'', ''AZUL''])]])"
  by (simp add: podar_dominios_def adyacentes_def filtrado_def no_conflicto_binario_def
        vecinos_de_def Let_def)


section \<open>Correctness of the backtracking search\<close>

lemma en_orden_snoc:
  "en_orden adj (a @ [(x, v)]) = (en_orden adj a \<and> es_consistente_con_asignacion adj a x v)"
  by (auto simp: en_orden_def nth_append less_Suc_eq)

lemma en_orden_vacia: "en_orden adj []"
  by (simp add: en_orden_def)

lemma de_dominios_snoc:
  "de_dominios doms (a @ [(x, v)])
     = (de_dominios doms a \<and> (\<exists>d. map_of doms x = Some d \<and> v \<in> set d))"
  by (auto simp: de_dominios_def split: option.splits)

lemma probar_valores_casos:
  assumes nueva: "x \<notin> fst ` set asg"
    and rec: "\<And>v a'. rec (AList.update x v asg) = Inr (Fallo a') \<Longrightarrow> a' = AList.update x v asg"
  shows "(probar_valores adj rec x vs asg = Inr (Fallo a') \<longrightarrow>
            a' = asg \<and> (\<forall>v \<in> set vs. es_consistente_con_asignacion adj asg x v \<longrightarrow>
                          rec (AList.update x v asg) = Inr (Fallo (AList.update x v asg))))
       \<and> (probar_valores adj rec x vs asg = Inr (Exito a) \<longrightarrow>
            (\<exists>v \<in> set vs. es_consistente_con_asignacion adj asg x v
                           \<and> rec (AList.update x v asg) = Inr (Exito a)))"
proof (induction vs)
  case Nil
  show ?case by simp
next
  case (Cons v vs)
  from nueva have del: "AList.delete x (AList.update x v asg) = asg"
    by (simp add: delete_update_same)
  show ?case
  proof (cases "es_consistente_con_asignacion adj asg x v")
    case False
    with Cons.IH show ?thesis by simp
  next
    case True
    show ?thesis
    proof (cases "rec (AList.update x v asg)")
      case (Inl e)
      with True show ?thesis by simp
    next
      case (Inr res)
      show ?thesis
      proof (cases res)
        case (Exito b)
        with True Inr show ?thesis by auto
      next
        case (Fallo b)
        with Inr rec[of v b] have b: "b = AList.update x v asg" by simp
        with True Inr Fallo Cons.IH show ?thesis
          by (simp add: del dom_update)
      qed
    qed
  qed
qed

lemma prefijo_nueva:
  assumes "distinct vars" and "map fst asg = take (length asg) vars"
    and "length asg < length vars"
  shows "vars ! length asg \<notin> fst ` set asg"
proof -
  have "vars ! length asg \<notin> set (take (length asg) vars)"
    using assms(1,3) by (auto simp: in_set_conv_nth nth_eq_iff_index_eq)
  with assms(2) show ?thesis by (metis set_map)
qed

lemma prefijo_update:
  assumes "distinct vars" and "map fst asg = take (length asg) vars"
    and "length asg < length vars"
  shows "AList.update (vars ! length asg) v asg = asg @ [(vars ! length asg, v)]"
    and "map fst (asg @ [(vars ! length asg, v)])
           = take (length (asg @ [(vars ! length asg, v)])) vars"
  using prefijo_nueva[OF assms] assms(2,3)
  by (simp_all add: update_nueva take_Suc_conv_app_nth)

lemma backtracking_correcto:
  assumes dist: "distinct vars"
  shows "map fst asg = take (length asg) vars \<Longrightarrow> length asg \<le> length vars \<Longrightarrow>
     (backtracking adj vars doms n asg = Inr (Fallo a') \<longrightarrow>
        a' = asg
        \<and> (\<forall>ext. map fst (asg @ ext) = vars \<longrightarrow> de_dominios doms ext \<longrightarrow>
                  \<not> en_orden adj (asg @ ext)))
     \<and> (backtracking adj vars doms n asg = Inr (Exito a) \<longrightarrow>
        map fst a = vars
        \<and> (en_orden adj asg \<longrightarrow> en_orden adj a)
        \<and> (de_dominios doms asg \<longrightarrow> de_dominios doms a))"
proof (induction n arbitrary: asg a a')
  case 0
  show ?case by simp
next
  case (Suc n)
  show ?case
  proof (cases "length asg = length vars")
    case True
    with Suc.prems show ?thesis by auto
  next
    case False
    with Suc.prems(2) have k: "length asg < length vars" by simp
    let ?x = "vars ! length asg"
    note nueva = prefijo_nueva[OF dist Suc.prems(1) k]
    note upd = prefijo_update[OF dist Suc.prems(1) k]
    have ih: "(backtracking adj vars doms n (AList.update ?x v asg) = Inr (Fallo b) \<longrightarrow>
        b = AList.update ?x v asg
        \<and> (\<forall>ext. map fst (asg @ (?x, v) # ext) = vars \<longrightarrow> de_dominios doms ext \<longrightarrow>
                  \<not> en_orden adj (asg @ (?x, v) # ext)))
     \<and> (backtracking adj vars doms n (AList.update ?x v asg) = Inr (Exito b) \<longrightarrow>
        map fst b = vars
        \<and> (en_orden adj (asg @ [(?x, v)]) \<longrightarrow> en_orden adj b)
        \<and> (de_dominios doms (asg @ [(?x, v)]) \<longrightarrow> de_dominios doms b))" for v b
      using Suc.IH[OF upd(2), of v b b] k by (simp add: upd(1))
    show ?thesis
    proof (cases "map_of doms ?x")
      case None
      with k show ?thesis by simp
    next
      case (Some dominio)
      with k have bt: "backtracking adj vars doms (Suc n) asg
                = probar_valores adj (backtracking adj vars doms n) ?x dominio asg"
        by simp
      have casos: "(probar_valores adj (backtracking adj vars doms n) ?x dominio asg
                      = Inr (Fallo a') \<longrightarrow>
            a' = asg \<and> (\<forall>v \<in> set dominio. es_consistente_con_asignacion adj asg ?x v \<longrightarrow>
                          backtracking adj vars doms n (AList.update ?x v asg)
                            = Inr (Fallo (AList.update ?x v asg))))
       \<and> (probar_valores adj (backtracking adj vars doms n) ?x dominio asg = Inr (Exito a) \<longrightarrow>
            (\<exists>v \<in> set dominio. es_consistente_con_asignacion adj asg ?x v
                \<and> backtracking adj vars doms n (AList.update ?x v asg) = Inr (Exito a)))"
        using ih by (intro probar_valores_casos[OF nueva]) blast
      have fallo: "a' = asg
        \<and> (\<forall>ext. map fst (asg @ ext) = vars \<longrightarrow> de_dominios doms ext \<longrightarrow>
                  \<not> en_orden adj (asg @ ext))"
        if f: "backtracking adj vars doms (Suc n) asg = Inr (Fallo a')"
      proof (intro conjI allI impI notI)
        from f casos bt show "a' = asg" by simp
      next
        fix ext
        assume ks: "map fst (asg @ ext) = vars" and dd: "de_dominios doms ext"
          and eo: "en_orden adj (asg @ ext)"
        from ks k obtain v ext' where ext: "ext = (?x, v) # ext'"
        proof (cases ext)
          case Nil
          with ks k show ?thesis by (metis append_Nil2 length_map less_irrefl)
        next
          case (Cons p ext')
          with ks have "fst p = vars ! length asg"
            by (metis length_map list.simps(9) map_append nth_append_length)
          with Cons that show ?thesis by (cases p) auto
        qed
        from dd ext Some have v: "v \<in> set dominio" and dd': "de_dominios doms ext'"
          by (auto simp: de_dominios_def)
        from eo ext have "es_consistente_con_asignacion adj asg ?x v"
          by (auto simp: en_orden_def dest!: spec[of _ "length asg"])
        with f casos bt v have
          "backtracking adj vars doms n (AList.update ?x v asg)
             = Inr (Fallo (AList.update ?x v asg))" by simp
        with ih[of v "AList.update ?x v asg"] ks dd' eo ext show False by simp
      qed
      have exito: "map fst a = vars
        \<and> (en_orden adj asg \<longrightarrow> en_orden adj a)
        \<and> (de_dominios doms asg \<longrightarrow> de_dominios doms a)"
        if e: "backtracking adj vars doms (Suc n) asg = Inr (Exito a)"
      proof -
        from e casos bt obtain v where v: "v \<in> set dominio"
          "es_consistente_con_asignacion adj asg ?x v"
          "backtracking adj vars doms n (AList.update ?x v asg) = Inr (Exito a)"
          by auto
        with ih[of v a] Some show ?thesis
          by (auto simp: en_orden_snoc de_dominios_snoc)
      qed
      from fallo exito show ?thesis by blast
    qed
  qed
qed

lemma en_orden_sin_conflictos:
  assumes sim: "simetrica adj" and irr: "irreflexiva adj"
  shows "en_orden adj a = sin_conflictos adj a"
proof
  assume eo: "en_orden adj a"
  have "w \<notin> set (vecinos_de adj u) \<or> cu \<noteq> cw"
    if u: "(u, cu) \<in> set a" and w: "(w, cw) \<in> set a" for u cu w cw
  proof (rule disjCI)
    assume "\<not> cu \<noteq> cw"
    then have c: "cu = cw" by simp
    show "w \<notin> set (vecinos_de adj u)"
    proof
      assume ady: "w \<in> set (vecinos_de adj u)"
      from u w obtain i j where i: "i < length a" "a ! i = (u, cu)"
        and j: "j < length a" "a ! j = (w, cw)" by (auto simp: in_set_conv_nth)
      from ady irreflexivaD[OF irr, of u] have "u \<noteq> w" by auto
      with i j have "i \<noteq> j" by auto
      then consider "j < i" | "i < j" by linarith
      then show False
      proof cases
        case 1
        with i j have "(w, cw) \<in> set (take i a)"
          by (auto simp: in_set_conv_nth intro!: exI[of _ j])
        with eo i have "no_conflicto_binario adj u cu w cw"
          by (auto simp: en_orden_def es_consistente_con_asignacion_def list_all_iff
                   dest!: spec[of _ i])
        with ady c show False by (simp add: no_conflicto_binario_def)
      next
        case 2
        with i j have "(u, cu) \<in> set (take j a)"
          by (auto simp: in_set_conv_nth intro!: exI[of _ i])
        with eo j have "no_conflicto_binario adj w cw u cu"
          by (auto simp: en_orden_def es_consistente_con_asignacion_def list_all_iff
                   dest!: spec[of _ j])
        with simetricaD[OF sim ady] c show False by (simp add: no_conflicto_binario_def)
      qed
    qed
  qed
  then show "sin_conflictos adj a" by (auto simp: sin_conflictos_def list_all_iff)
next
  assume sc: "sin_conflictos adj a"
  show "en_orden adj a"
    unfolding en_orden_def es_consistente_con_asignacion_def list_all_iff
  proof (intro allI impI ballI)
    fix i p assume i: "i < length a" and p: "p \<in> set (take i a)"
    obtain w cw where pw: "p = (w, cw)" by (cases p)
    obtain xi vi where ai: "a ! i = (xi, vi)" by (cases "a ! i")
    from p have pa: "(w, cw) \<in> set a" unfolding pw by (rule in_set_takeD)
    from i ai have ia: "(xi, vi) \<in> set a" by (metis nth_mem)
    from sc pa ia have "xi \<notin> set (vecinos_de adj w) \<or> cw \<noteq> vi"
      by (fastforce simp: sin_conflictos_def list_all_iff)
    with simetricaD[OF sim, of w xi]
    show "case p of (otra_var, otro_valor) \<Rightarrow>
            no_conflicto_binario adj (fst (a ! i)) (snd (a ! i)) otra_var otro_valor"
      by (auto simp: pw ai no_conflicto_binario_def)
  qed
qed

text \<open>
  Backtracking from the empty dictionary is correct and complete: what it returns is a
  complete assignment from the domains with no two adjacent variables alike, and it
  returns \<open>None\<close> only when there is no such assignment.
\<close>

lemma backtracking_solucion_valida:
  assumes "distinct vars" and "simetrica adj" and "irreflexiva adj"
    and "backtracking adj vars doms n [] = Inr (Exito a)"
  shows "map fst a = vars \<and> de_dominios doms a \<and> sin_conflictos adj a"
proof -
  from backtracking_correcto[OF assms(1), of "[]" adj doms n _ a] assms(4)
  have a: "map fst a = vars" "en_orden adj a" "de_dominios doms a"
    by (simp_all add: en_orden_vacia de_dominios_def)
  with en_orden_sin_conflictos[OF assms(2,3), of a] assms(1) show ?thesis by simp
qed

lemma backtracking_none_sin_solucion:
  assumes "distinct vars" and "simetrica adj" and "irreflexiva adj"
    and "backtracking adj vars doms n [] = Inr (Fallo a')"
  shows "a' = [] \<and> \<not> (\<exists>a. map fst a = vars \<and> de_dominios doms a \<and> sin_conflictos adj a)"
proof -
  from backtracking_correcto[OF assms(1), of "[]" adj doms n a'] assms(4)
  have a': "a' = []"
    and no: "\<And>ext. map fst ext = vars \<Longrightarrow> de_dominios doms ext \<Longrightarrow> \<not> en_orden adj ext"
    by auto
  from no en_orden_sin_conflictos[OF assms(2,3)] assms(1) a' show ?thesis by auto
qed

lemma backtracking_decide:
  assumes "distinct vars" and "simetrica adj" and "irreflexiva adj"
    and "\<forall>v \<in> set vars. map_of doms v \<noteq> None" and "length vars < n"
  shows "(\<exists>a. backtracking adj vars doms n [] = Inr (Exito a))
           = (\<exists>a. map fst a = vars \<and> de_dominios doms a \<and> sin_conflictos adj a)"
    and "(backtracking adj vars doms n [] = Inr (Fallo []))
           = (\<not> (\<exists>a. map fst a = vars \<and> de_dominios doms a \<and> sin_conflictos adj a))"
proof -
  from backtracking_prefijo[OF assms(1,4), of "[]" n adj] assms(5)
  have tot: "(\<exists>a. backtracking adj vars doms n [] = Inr (Exito a))
             \<or> backtracking adj vars doms n [] = Inr (Fallo [])" by simp
  note s = backtracking_solucion_valida[OF assms(1,2,3), of doms n]
  note f = backtracking_none_sin_solucion[OF assms(1,2,3), of doms n "[]"]
  show "(\<exists>a. backtracking adj vars doms n [] = Inr (Exito a))
           = (\<exists>a. map fst a = vars \<and> de_dominios doms a \<and> sin_conflictos adj a)"
    using tot s f by auto
  show "(backtracking adj vars doms n [] = Inr (Fallo []))
           = (\<not> (\<exists>a. map fst a = vars \<and> de_dominios doms a \<and> sin_conflictos adj a))"
    using tot s f by auto
qed

end
